theory Spec2Isabelle
  imports Main
begin

section \<open>Webhook subscriptions: the constraint validator of \<open>WebhooksSchema\<close>\<close>

text \<open>
  The callback given to \<open>WebhooksSchema.superRefine\<close> (models/app/app.ts) receives the
  parsed webhooks document and the refinement context \<open>ctx\<close>. Every optional string
  field is a \<open>string option\<close> (\<open>None\<close> is JavaScript's \<open>undefined\<close>). The fields of a
  subscription record carry the prefix \<open>s_\<close>, the fields of the document keep the
  names the callback destructures. Fields the callback never reads (\<open>api_version\<close>,
  \<open>privacy_compliance\<close>, \<open>sub_topic\<close>, \<open>format\<close>, ...) are left out.
\<close>

record subscription =
  s_topic :: string
  s_subscription_endpoint_url :: "string option"
  s_path :: "string option"
  s_pubsub_project :: "string option"
  s_pubsub_topic :: "string option"
  s_arn :: "string option"

record webhooks =
  subscription_endpoint_url :: "string option"
  pubsub_project :: "string option"
  pubsub_topic :: "string option"
  arn :: "string option"
  topics :: "string list option"
  subscriptions :: "subscription list option"

text \<open>
  An issue added with \<open>ctx.addIssue\<close>. All issues of this callback have the code
  \<open>custom\<close> and are fatal; they differ in message and path. The messages are:
  \<^item> \<open>IncompletePubSubPair suffix\<close>: "You must declare both pubsub_project and
    pubsub_topic if you wish to use " followed by the suffix;
  \<^item> \<open>MultipleDestinations suffix\<close>: "You are only allowed to declare one (1) of
    subscription_endpoint_url, pubsub_project & pubsub_topic, or arn " followed by the
    suffix;
  \<^item> \<open>UnusedDestination\<close>: "To use a top-level destination, you must also provide a
    `topics` array or `subscriptions` configuration";
  \<^item> \<open>TopicsMissingDestination\<close>: "To use top-level topics, you must also provide a
    top-level destination of either subscription_endpoint_url, pubsub_project &
    pubsub_topic, or arn";
  \<^item> \<open>DuplicateSubscription\<close>: "You can't have duplicate subscriptions with the exact
    same topic and destination";
  \<^item> \<open>MissingDestination\<close>: "You must declare either a top-level destination or a
    destination per subscription";
  \<^item> \<open>PathMissingEndpoint\<close>: "You must declare a subscription_endpoint_url if you
    wish to use a relative path";
  \<^item> \<open>PathWithIncompatibleDestination\<close>: "You can't define a path when using arn or
    pubsub".
\<close>

datatype message =
    IncompletePubSubPair string
  | MultipleDestinations string
  | UnusedDestination
  | TopicsMissingDestination
  | DuplicateSubscription
  | MissingDestination
  | PathMissingEndpoint
  | PathWithIncompatibleDestination

datatype path_elem = PKey string | PIndex nat

record issue =
  message :: message
  path :: "path_elem list"

type_synonym ctx = "issue list"

definition addIssue :: "issue \<Rightarrow> ctx \<Rightarrow> ctx" where
  "addIssue i c = c @ [i]"

text \<open>\<open>Boolean(x)\<close> on a value of type \<open>string | undefined\<close>: the empty string and
  \<open>undefined\<close> are falsy.\<close>

fun truthy :: "string option \<Rightarrow> bool" where
  "truthy None = False"
| "truthy (Some s) = (s \<noteq> [])"

text \<open>\<open>a && b\<close>: \<open>b\<close> when \<open>a\<close> is truthy, else \<open>a\<close>.\<close>

definition andand :: "string option \<Rightarrow> string option \<Rightarrow> string option" where
  "andand a b = (if truthy a then b else a)"

text \<open>\<open>Array.prototype.join\<close>: an \<open>undefined\<close> element is rendered as the empty string.\<close>

fun str_of :: "string option \<Rightarrow> string" where
  "str_of None = []"
| "str_of (Some s) = s"

fun join :: "string \<Rightarrow> string list \<Rightarrow> string" where
  "join d [] = []"
| "join d [x] = x"
| "join d (x # y # ys) = x @ d @ join d (y # ys)"

definition delimiter :: string where
  "delimiter = ''::''"

text \<open>The local constants of the callback.\<close>

definition topics_of :: "webhooks \<Rightarrow> string list" where
  "topics_of d = (case topics d of None \<Rightarrow> [] | Some ts \<Rightarrow> ts)"

definition subscriptions_of :: "webhooks \<Rightarrow> subscription list" where
  "subscriptions_of d = (case subscriptions d of None \<Rightarrow> [] | Some ss \<Rightarrow> ss)"

definition topLevelDestinations :: "webhooks \<Rightarrow> string option list" where
  "topLevelDestinations d =
     filter truthy [subscription_endpoint_url d, andand (pubsub_project d) (pubsub_topic d), arn d]"

definition topLevelDestination :: "webhooks \<Rightarrow> string" where
  "topLevelDestination d =
     join delimiter (map str_of (filter truthy
       [subscription_endpoint_url d, pubsub_project d, pubsub_topic d, arn d]))"

definition subscriptionDestinations :: "subscription \<Rightarrow> string option list" where
  "subscriptionDestinations s =
     filter truthy [s_subscription_endpoint_url s, andand (s_pubsub_project s) (s_pubsub_topic s), s_arn s]"

text \<open>The value of the variable \<open>destination\<close> when the key is built: the record's own
  destination fields joined, the top-level destination when that is empty, and the
  record's path appended when it has one.\<close>

definition destination :: "webhooks \<Rightarrow> subscription \<Rightarrow> string" where
  "destination d s =
     (let own = join delimiter (map str_of (filter truthy
                  [s_subscription_endpoint_url s, s_pubsub_project s, s_pubsub_topic s, s_arn s]));
          dest = (if own = [] then topLevelDestination d else own)
      in if truthy (s_path s) then dest @ str_of (s_path s) else dest)"

definition topic_key :: "webhooks \<Rightarrow> string \<Rightarrow> string" where
  "topic_key d t = t @ delimiter @ topLevelDestination d"

definition subscription_key :: "webhooks \<Rightarrow> subscription \<Rightarrow> string" where
  "subscription_key d s = s_topic s @ delimiter @ destination d s"

text \<open>
  The two loops. Each returns \<open>Inl ctx'\<close> when the callback adds an issue and returns
  (\<open>return zod.NEVER\<close>), and \<open>Inr seen\<close>, the contents of
  \<open>subscriptionDestinationsSet\<close>, when the loop runs to its end.
\<close>

fun topics_loop :: "webhooks \<Rightarrow> string list \<Rightarrow> string set \<Rightarrow> ctx \<Rightarrow> ctx + string set" where
  "topics_loop d [] seen c = Inr seen"
| "topics_loop d (t # ts) seen c =
     (let key = topic_key d t in
      if key \<in> seen
      then Inl (addIssue \<lparr>message = DuplicateSubscription, path = [PKey ''topics'', PKey t]\<rparr> c)
      else topics_loop d ts (insert key seen) c)"

fun subscriptions_loop ::
  "webhooks \<Rightarrow> nat \<Rightarrow> subscription list \<Rightarrow> string set \<Rightarrow> ctx \<Rightarrow> ctx + string set" where
  "subscriptions_loop d i [] seen c = Inr seen"
| "subscriptions_loop d i (s # ss) seen c =
     (let p = [PKey ''subscriptions'', PIndex i] in
      if length (filter truthy [s_pubsub_project s, s_pubsub_topic s]) = 1
      then Inl (addIssue \<lparr>message = IncompletePubSubPair ''a pub sub destination'', path = p\<rparr> c)
      else if length (subscriptionDestinations s) > 1
      then Inl (addIssue \<lparr>message = MultipleDestinations ''per subscription'', path = p\<rparr> c)
      else if topLevelDestinations d = [] \<and> length (subscriptionDestinations s) = 0
      then Inl (addIssue \<lparr>message = MissingDestination, path = p\<rparr> c)
      else if \<not> truthy (subscription_endpoint_url d) \<and> \<not> truthy (s_subscription_endpoint_url s)
              \<and> truthy (s_path s)
      then Inl (addIssue \<lparr>message = PathMissingEndpoint, path = p\<rparr> c)
      else if (truthy (s_arn s) \<or> truthy (s_pubsub_project s)) \<and> truthy (s_path s)
      then Inl (addIssue \<lparr>message = PathWithIncompatibleDestination, path = p\<rparr> c)
      else let key = subscription_key d s in
        if key \<in> seen
        then Inl (addIssue \<lparr>message = DuplicateSubscription, path = p @ [PKey (s_topic s)]\<rparr> c)
        else subscriptions_loop d (Suc i) ss (insert key seen) c)"

text \<open>The callback up to and including the loop over the top-level topics.\<close>

definition top_level :: "webhooks \<Rightarrow> ctx \<Rightarrow> ctx + string set" where
  "top_level d c =
     (if length (filter truthy [pubsub_project d, pubsub_topic d]) = 1
      then Inl (addIssue \<lparr>message = IncompletePubSubPair ''a top-level pub sub destination'',
                          path = []\<rparr> c)
      else if length (topLevelDestinations d) > 1
      then Inl (addIssue \<lparr>message = MultipleDestinations ''at the top level'', path = []\<rparr> c)
      else if topLevelDestinations d \<noteq> [] \<and> topics_of d = [] \<and> subscriptions_of d = []
      then Inl (addIssue \<lparr>message = UnusedDestination, path = []\<rparr> c)
      else if topLevelDestinations d = [] \<and> topics_of d \<noteq> []
      then Inl (addIssue \<lparr>message = TopicsMissingDestination, path = [PKey ''topics'']\<rparr> c)
      else if topLevelDestination d \<noteq> [] \<and> topics_of d \<noteq> []
      then topics_loop d (topics_of d) {} c
      else Inr {})"

text \<open>The whole callback: the context it leaves behind.\<close>

definition superRefine :: "webhooks \<Rightarrow> ctx \<Rightarrow> ctx" where
  "superRefine d c =
     (case top_level d c of
        Inl c' \<Rightarrow> c'
      | Inr seen \<Rightarrow>
          if subscriptions_of d \<noteq> []
          then (case subscriptions_loop d 0 (subscriptions_of d) seen c of
                  Inl c' \<Rightarrow> c'
                | Inr _ \<Rightarrow> c)
          else c)"

subsection \<open>The documented check order, without the early return\<close>

text \<open>
  The validator the specification describes, read as an error-accumulating one: every
  check of the documented order is made, in that order, and every violation is listed.
  The checks of one record other than the duplicate check are
  \<open>record_check_violations\<close>; \<open>violations_before d i\<close> lists what is found before the
  checks of record \<open>i\<close> begin.
\<close>

definition record_check_violations :: "webhooks \<Rightarrow> nat \<Rightarrow> subscription \<Rightarrow> issue list" where
  "record_check_violations d i s =
     (let p = [PKey ''subscriptions'', PIndex i] in
      (if length (filter truthy [s_pubsub_project s, s_pubsub_topic s]) = 1
       then [\<lparr>message = IncompletePubSubPair ''a pub sub destination'', path = p\<rparr>] else []) @
      (if length (subscriptionDestinations s) > 1
       then [\<lparr>message = MultipleDestinations ''per subscription'', path = p\<rparr>] else []) @
      (if topLevelDestinations d = [] \<and> subscriptionDestinations s = []
       then [\<lparr>message = MissingDestination, path = p\<rparr>] else []) @
      (if \<not> truthy (subscription_endpoint_url d) \<and> \<not> truthy (s_subscription_endpoint_url s)
          \<and> truthy (s_path s)
       then [\<lparr>message = PathMissingEndpoint, path = p\<rparr>] else []) @
      (if (truthy (s_arn s) \<or> truthy (s_pubsub_project s)) \<and> truthy (s_path s)
       then [\<lparr>message = PathWithIncompatibleDestination, path = p\<rparr>] else []))"

definition duplicate_violation :: "string set \<Rightarrow> string \<Rightarrow> path_elem list \<Rightarrow> issue list" where
  "duplicate_violation seen key p =
     (if key \<in> seen then [\<lparr>message = DuplicateSubscription, path = p\<rparr>] else [])"

fun topic_violations :: "webhooks \<Rightarrow> string list \<Rightarrow> string set \<Rightarrow> issue list" where
  "topic_violations d [] seen = []"
| "topic_violations d (t # ts) seen =
     duplicate_violation seen (topic_key d t) [PKey ''topics'', PKey t]
     @ topic_violations d ts (insert (topic_key d t) seen)"

fun record_violations :: "webhooks \<Rightarrow> nat \<Rightarrow> subscription list \<Rightarrow> string set \<Rightarrow> issue list" where
  "record_violations d i [] seen = []"
| "record_violations d i (s # ss) seen =
     record_check_violations d i s
     @ duplicate_violation seen (subscription_key d s)
         [PKey ''subscriptions'', PIndex i, PKey (s_topic s)]
     @ record_violations d (Suc i) ss (insert (subscription_key d s) seen)"

definition top_level_violations :: "webhooks \<Rightarrow> issue list" where
  "top_level_violations d =
     (if length (filter truthy [pubsub_project d, pubsub_topic d]) = 1
      then [\<lparr>message = IncompletePubSubPair ''a top-level pub sub destination'', path = []\<rparr>]
      else []) @
     (if length (topLevelDestinations d) > 1
      then [\<lparr>message = MultipleDestinations ''at the top level'', path = []\<rparr>] else []) @
     (if topLevelDestinations d \<noteq> [] \<and> topics_of d = [] \<and> subscriptions_of d = []
      then [\<lparr>message = UnusedDestination, path = []\<rparr>] else []) @
     (if topLevelDestinations d = [] \<and> topics_of d \<noteq> []
      then [\<lparr>message = TopicsMissingDestination, path = [PKey ''topics'']\<rparr>] else [])"

definition top_level_topics :: "webhooks \<Rightarrow> string list" where
  "top_level_topics d = (if topLevelDestination d \<noteq> [] then topics_of d else [])"

definition top_level_keys :: "webhooks \<Rightarrow> string set" where
  "top_level_keys d = topic_key d ` set (top_level_topics d)"

definition violations_before :: "webhooks \<Rightarrow> nat \<Rightarrow> issue list" where
  "violations_before d i =
     top_level_violations d @ topic_violations d (top_level_topics d) {}
     @ record_violations d 0 (take i (subscriptions_of d)) (top_level_keys d)"

definition constraint_violations :: "webhooks \<Rightarrow> issue list" where
  "constraint_violations d = violations_before d (length (subscriptions_of d))"

subsection \<open>The subscription key as a triple\<close>

text \<open>
  The specification's subscription key: the triple of topic, effective destination and
  path. A field counts as set when it is truthy (\<open>norm\<close> forgets a falsy one). The
  effective destination of a record is its own four destination fields when any of
  them is set, and the four top-level fields otherwise; a top-level topic has the
  top-level destination and no path.
\<close>

definition norm :: "string option \<Rightarrow> string option" where
  "norm x = (if truthy x then x else None)"

definition own_destination :: "subscription \<Rightarrow> string option list" where
  "own_destination s =
     map norm [s_subscription_endpoint_url s, s_pubsub_project s, s_pubsub_topic s, s_arn s]"

definition top_destination :: "webhooks \<Rightarrow> string option list" where
  "top_destination d =
     map norm [subscription_endpoint_url d, pubsub_project d, pubsub_topic d, arn d]"

definition effective_destination :: "webhooks \<Rightarrow> subscription \<Rightarrow> string option list" where
  "effective_destination d s =
     (if list_ex truthy (own_destination s) then own_destination s else top_destination d)"

definition record_triple ::
  "webhooks \<Rightarrow> subscription \<Rightarrow> string \<times> string option list \<times> string option" where
  "record_triple d s = (s_topic s, effective_destination d s, norm (s_path s))"

definition topic_triple ::
  "webhooks \<Rightarrow> string \<Rightarrow> string \<times> string option list \<times> string option" where
  "topic_triple d t = (t, top_destination d, None)"

text \<open>
  A document passes the destination checks when none of the checks other than the
  duplicate check finds a violation; it has a duplicate key when two records, a
  top-level topic and a record, or two top-level topics have the same triple.
\<close>

definition destination_checks_pass :: "webhooks \<Rightarrow> bool" where
  "destination_checks_pass d \<longleftrightarrow>
     top_level_violations d = [] \<and>
     (\<forall>i < length (subscriptions_of d).
        record_check_violations d i (subscriptions_of d ! i) = [])"

definition has_duplicate_key :: "webhooks \<Rightarrow> bool" where
  "has_duplicate_key d \<longleftrightarrow>
     (\<exists>j < length (subscriptions_of d). \<exists>i < j.
        record_triple d (subscriptions_of d ! i) = record_triple d (subscriptions_of d ! j)) \<or>
     (\<exists>t \<in> set (topics_of d). \<exists>s \<in> set (subscriptions_of d).
        topic_triple d t = record_triple d s) \<or>
     \<not> distinct (topics_of d)"

text \<open>
  An arn or pubsub destination is in effect for a record when the record declares one,
  or when the record declares no destination of its own and the document's top-level
  destination is one. \<open>pre_path_checks_pass\<close>: the record passes the three checks
  made before the two path checks (pair completeness, exclusivity, missing
  destination).
\<close>

definition has_arn_or_pubsub :: "subscription \<Rightarrow> bool" where
  "has_arn_or_pubsub s \<longleftrightarrow>
     truthy (s_arn s) \<or> truthy (andand (s_pubsub_project s) (s_pubsub_topic s))"

definition top_has_arn_or_pubsub :: "webhooks \<Rightarrow> bool" where
  "top_has_arn_or_pubsub d \<longleftrightarrow>
     truthy (arn d) \<or> truthy (andand (pubsub_project d) (pubsub_topic d))"

definition arn_or_pubsub_in_effect :: "webhooks \<Rightarrow> subscription \<Rightarrow> bool" where
  "arn_or_pubsub_in_effect d s \<longleftrightarrow>
     has_arn_or_pubsub s \<or> (\<not> list_ex truthy (own_destination s) \<and> top_has_arn_or_pubsub d)"

definition pre_path_checks_pass :: "webhooks \<Rightarrow> subscription \<Rightarrow> bool" where
  "pre_path_checks_pass d s \<longleftrightarrow>
     length (filter truthy [s_pubsub_project s, s_pubsub_topic s]) \<noteq> 1 \<and>
     length (subscriptionDestinations s) \<le> 1 \<and>
     \<not> (topLevelDestinations d = [] \<and> subscriptionDestinations s = [])"

subsection \<open>Example documents\<close>

definition example_arn :: string where
  "example_arn = ''arn:aws:events:us-west-2::event-source/aws.partner/shopify.com/1234567890/webhooks_path''"

definition empty_subscription :: "string \<Rightarrow> subscription" where
  "empty_subscription t =
     \<lparr>s_topic = t, s_subscription_endpoint_url = None, s_path = None,
      s_pubsub_project = None, s_pubsub_topic = None, s_arn = None\<rparr>"

definition empty_webhooks :: webhooks where
  "empty_webhooks =
     \<lparr>subscription_endpoint_url = None, pubsub_project = None, pubsub_topic = None,
      arn = None, topics = None, subscriptions = None\<rparr>"

definition doc_arn_path :: webhooks where
  "doc_arn_path = empty_webhooks\<lparr>subscriptions := Some
     [(empty_subscription ''orders/create'')\<lparr>s_arn := Some example_arn, s_path := Some ''/hooks''\<rparr>]\<rparr>"

definition doc_url_arn_path :: webhooks where
  "doc_url_arn_path = doc_arn_path\<lparr>subscription_endpoint_url := Some ''https://a.com''\<rparr>"

definition doc_project_arn :: webhooks where
  "doc_project_arn = empty_webhooks\<lparr>subscriptions := Some
     [(empty_subscription ''orders/create'')
        \<lparr>s_pubsub_project := Some ''my-project'', s_arn := Some example_arn\<rparr>]\<rparr>"

definition doc_pubsub_arn :: webhooks where
  "doc_pubsub_arn = empty_webhooks\<lparr>subscriptions := Some
     [(empty_subscription ''orders/create'')
        \<lparr>s_pubsub_project := Some ''my-project'', s_pubsub_topic := Some ''my-topic'',
         s_arn := Some example_arn\<rparr>]\<rparr>"

definition doc_path_only :: webhooks where
  "doc_path_only = empty_webhooks\<lparr>subscriptions := Some
     [(empty_subscription ''orders/create'')\<lparr>s_path := Some ''/hooks''\<rparr>]\<rparr>"

definition doc_top_arn_path :: webhooks where
  "doc_top_arn_path = doc_path_only\<lparr>arn := Some example_arn\<rparr>"

definition doc_single :: webhooks where
  "doc_single = empty_webhooks\<lparr>subscription_endpoint_url := Some ''https://a.com'',
     topics := Some [''orders/create'']\<rparr>"

definition doc_repeated :: webhooks where
  "doc_repeated = empty_webhooks\<lparr>subscription_endpoint_url := Some ''https://a.com'',
     topics := Some [''orders/create'', ''orders/create'']\<rparr>"

definition doc_same_key :: webhooks where
  "doc_same_key = empty_webhooks\<lparr>subscription_endpoint_url := Some ''https://a.com'',
     subscriptions := Some
       [(empty_subscription ''products/update'')\<lparr>s_path := Some ''/hooks''\<rparr>,
        (empty_subscription ''orders/create''),
        (empty_subscription ''products/update'')
          \<lparr>s_subscription_endpoint_url := Some ''https://a.com'', s_path := Some ''/hooks''\<rparr>]\<rparr>"


section \<open>The app model: \<open>App.extensionsForType\<close> and \<open>App.updateExtensionUUIDS\<close>\<close>

text \<open>
  The class \<open>ExtensionInstance\<close> is declared outside the files at hand; the two
  methods of \<open>App\<close> read its \<open>type\<close> and \<open>localIdentifier\<close> and write its
  \<open>devUUID\<close>. Every other field of an extension instance, and every other field of
  the app, is the extension part of the record (\<open>'x\<close>, \<open>'a\<close>), so that a statement
  about all record schemes is a statement about all the fields not named here.
\<close>

record extension_instance =
  type :: string
  localIdentifier :: string
  devUUID :: string

record 'x app =
  allExtensions :: "'x extension_instance_scheme list"

record specification_names =
  "identifier" :: string
  externalIdentifier :: string

definition extensionsForType ::
  "('x, 'a) app_scheme \<Rightarrow> specification_names \<Rightarrow> 'x extension_instance_scheme list" where
  "extensionsForType this specification =
     filter (\<lambda>extension. type extension = identifier specification
                         \<or> type extension = externalIdentifier specification)
       (allExtensions this)"


section \<open>The \<open>ui_extension\<close> specification\<close>

text \<open>
  \<open>appModuleFeatures\<close> and \<open>shouldFetchCartUrl\<close> of the \<open>ui_extension\<close> specification.
  \<open>getExtensionPointTargetSurface\<close> (services/dev/extension/utilities.ts) is not among
  the files at hand and is a parameter. The first function reads
  \<open>config.extension_points?.find\<close>, the second \<open>config.extension_points.find\<close>, which
  throws a TypeError when \<open>extension_points\<close> is \<open>undefined\<close>; \<open>find(...) !== undefined\<close>
  is \<open>find ... \<noteq> None\<close>.
\<close>

record extension_point =
  target :: string
  module :: string

record ui_extension_config =
  extension_points :: "extension_point list option"

datatype js_error = TypeError

definition targets_checkout :: "(string \<Rightarrow> string) \<Rightarrow> extension_point \<Rightarrow> bool" where
  "targets_checkout getExtensionPointTargetSurface extensionPoint \<longleftrightarrow>
     getExtensionPointTargetSurface (target extensionPoint) = ''checkout''"

definition appModuleFeatures :: "(string \<Rightarrow> string) \<Rightarrow> ui_extension_config \<Rightarrow> string list" where
  "appModuleFeatures getExtensionPointTargetSurface config =
     (let basic = [''ui_preview'', ''bundling'', ''esbuild''];
          needsCart = (case extension_points config of
                         None \<Rightarrow> False
                       | Some eps \<Rightarrow>
                           find (targets_checkout getExtensionPointTargetSurface) eps \<noteq> None)
      in if needsCart then basic @ [''cart_url''] else basic)"

definition shouldFetchCartUrl :: "(string \<Rightarrow> string) \<Rightarrow> ui_extension_config \<Rightarrow> js_error + bool" where
  "shouldFetchCartUrl getExtensionPointTargetSurface config =
     (case extension_points config of
        None \<Rightarrow> Inl TypeError
      | Some eps \<Rightarrow> Inr (find (targets_checkout getExtensionPointTargetSurface) eps \<noteq> None))"

text \<open>
  The predicate both functions are claimed to compute: some declared extension point
  has a target on the checkout surface.
\<close>

definition declares_checkout_target :: "(string \<Rightarrow> string) \<Rightarrow> ui_extension_config \<Rightarrow> bool" where
  "declares_checkout_target surface config \<longleftrightarrow>
     (\<exists>eps. extension_points config = Some eps \<and>
        (\<exists>ep \<in> set eps. surface (target ep) = ''checkout''))"

subsection \<open>Example app and configuration\<close>

definition example_extension :: "string \<Rightarrow> string \<Rightarrow> string \<Rightarrow> extension_instance" where
  "example_extension t l u = \<lparr>type = t, localIdentifier = l, devUUID = u\<rparr>"

definition example_app :: "unit app" where
  "example_app = \<lparr>allExtensions =
     [example_extension ''ui_extension_external'' ''checkout-banner'' ''dev-1'',
      example_extension ''function'' ''discount'' ''dev-2'',
      example_extension ''ui_extension'' ''admin-block'' ''dev-3'']\<rparr>"

definition ui_extension_names :: specification_names where
  "ui_extension_names =
     \<lparr>identifier = ''ui_extension'', externalIdentifier = ''ui_extension_external''\<rparr>"


definition example_surface :: "string \<Rightarrow> string" where
  "example_surface t =
     (if t = ''purchase.checkout.block.render'' then ''checkout'' else ''admin'')"

definition checkout_config :: ui_extension_config where
  "checkout_config = \<lparr>extension_points = Some
     [\<lparr>target = ''admin.product-details.block.render'', module = ''./src/Admin.jsx''\<rparr>,
      \<lparr>target = ''purchase.checkout.block.render'', module = ''./src/Checkout.jsx''\<rparr>]\<rparr>"

section \<open>Rewriting a configuration in schema order: \<open>rewriteConfiguration\<close>\<close>

text \<open>
  \<open>rewriteConfiguration\<close> (services/app/config/link.ts) walks a zod schema and a
  configuration value and writes into the object \<open>result\<close>. It assigns to and deletes
  from \<open>result\<close> in place, and the array case hands the same \<open>result\<close> to every
  element, so objects are shared: the model has an explicit heap.

  A schema is one of the zod classes the function tests for, \<open>ZodOther\<close> for every other
  class (\<open>ZodString\<close>, \<open>ZodBoolean\<close>, \<open>ZodEffects\<close>, ...), which the function answers with
  \<open>return config\<close>, and \<open>NoSchema\<close> for \<open>null\<close> or \<open>undefined\<close>.
\<close>

datatype schema =
    NoSchema
  | ZodNullable schema
  | ZodOptional schema
  | ZodArray schema
  | ZodObject "(string \<times> schema) list"
  | ZodOther

text \<open>
  JavaScript values: primitives, and references to heap cells. A cell is a plain
  object, its properties in insertion order (the order of \<open>Object.keys\<close> for keys
  that are not array indices), or an array. The heap is the list of its cells, an
  address is an index, and allocation appends.
\<close>

type_synonym addr = nat

datatype js_value =
    Undefined
  | Null
  | Boolean bool
  | Number int
  | String string
  | Ref addr

datatype heap_cell =
    Object "(string \<times> js_value) list"
  | Array "js_value list"

type_synonym heap = "heap_cell list"

definition alloc :: "heap_cell \<Rightarrow> heap \<Rightarrow> addr \<times> heap" where
  "alloc c h = (length h, h @ [c])"

definition cell_at :: "heap \<Rightarrow> addr \<Rightarrow> heap_cell option" where
  "cell_at h a = (if a < length h then Some (h ! a) else None)"

text \<open>
  \<open>obj[k] = v\<close> keeps the position of a key that is there and appends a new one;
  \<open>delete obj[k]\<close> removes it. \<open>v[k]\<close> throws a TypeError on \<open>null\<close> and
  \<open>undefined\<close>; on an object it is the property or \<open>undefined\<close>. The keys of a zod
  shape are taken not to be array indices, \<open>length\<close> or names inherited from a
  prototype, so that \<open>v[k]\<close> is \<open>undefined\<close> on an array and on a primitive.
  \<open>is_empty_object h v\<close> is \<open>v instanceof Object && Object.keys(v).length === 0\<close>.
\<close>

fun set_entry :: "string \<Rightarrow> js_value \<Rightarrow> (string \<times> js_value) list \<Rightarrow> (string \<times> js_value) list" where
  "set_entry k v [] = [(k, v)]"
| "set_entry k v ((k', v') # ps) =
     (if k' = k then (k, v) # ps else (k', v') # set_entry k v ps)"

definition delete_entry :: "string \<Rightarrow> (string \<times> js_value) list \<Rightarrow> (string \<times> js_value) list" where
  "delete_entry k ps = filter (\<lambda>p. fst p \<noteq> k) ps"

definition get_property :: "heap \<Rightarrow> js_value \<Rightarrow> string \<Rightarrow> js_error + js_value" where
  "get_property h v k =
     (case v of
        Undefined \<Rightarrow> Inl TypeError
      | Null \<Rightarrow> Inl TypeError
      | Ref a \<Rightarrow>
          (case cell_at h a of
             Some (Object ps) \<Rightarrow>
               (case map_of ps k of None \<Rightarrow> Inr Undefined | Some x \<Rightarrow> Inr x)
           | _ \<Rightarrow> Inr Undefined)
      | _ \<Rightarrow> Inr Undefined)"

definition set_property :: "addr \<Rightarrow> string \<Rightarrow> js_value \<Rightarrow> heap \<Rightarrow> js_error + heap" where
  "set_property a k v h =
     (case cell_at h a of
        Some (Object ps) \<Rightarrow> Inr (h[a := Object (set_entry k v ps)])
      | _ \<Rightarrow> Inl TypeError)"

definition delete_property :: "addr \<Rightarrow> string \<Rightarrow> heap \<Rightarrow> heap" where
  "delete_property a k h =
     (case cell_at h a of
        Some (Object ps) \<Rightarrow> h[a := Object (delete_entry k ps)]
      | _ \<Rightarrow> h)"

definition is_empty_object :: "heap \<Rightarrow> js_value \<Rightarrow> bool" where
  "is_empty_object h v =
     (case v of
        Ref a \<Rightarrow>
          (case cell_at h a of
             Some (Object ps) \<Rightarrow> length ps = 0
           | Some (Array xs) \<Rightarrow> length xs = 0
           | None \<Rightarrow> False)
      | _ \<Rightarrow> False)"

text \<open>
  The function, with \<open>entries.forEach\<close> as \<open>rewrite_entries\<close> and the callback of
  \<open>map\<close> as \<open>rewrite_items\<close>. The argument \<open>result\<close> is the address of an object: the
  one call from outside (\<open>writeAppConfigurationFile\<close>) and the object case pass a new
  \<open>{}\<close>, the other cases pass the \<open>result\<close> they were given. \<open>map\<close> on anything but
  an array throws a TypeError. The function writes to objects it was given as
  \<open>result\<close> only, so the elements of the configuration array can be read before the
  walk.
\<close>

fun rewriteConfiguration ::
      "schema \<Rightarrow> js_value \<Rightarrow> addr \<Rightarrow> heap \<Rightarrow> js_error + (js_value \<times> heap)"
  and rewrite_entries ::
      "(string \<times> schema) list \<Rightarrow> js_value \<Rightarrow> addr \<Rightarrow> heap \<Rightarrow> js_error + heap"
  and rewrite_items ::
      "schema \<Rightarrow> js_value list \<Rightarrow> addr \<Rightarrow> heap \<Rightarrow> js_error + (js_value list \<times> heap)"
where
  "rewriteConfiguration NoSchema config result h = Inr (Null, h)"
| "rewriteConfiguration (ZodNullable inner) config result h =
     rewriteConfiguration inner config result h"
| "rewriteConfiguration (ZodOptional inner) config result h =
     rewriteConfiguration inner config result h"
| "rewriteConfiguration (ZodArray element) config result h =
     (case config of
        Ref a \<Rightarrow>
          (case cell_at h a of
             Some (Array items) \<Rightarrow>
               (case rewrite_items element items result h of
                  Inl e \<Rightarrow> Inl e
                | Inr (mapped, h') \<Rightarrow>
                    (let (b, h'') = alloc (Array mapped) h' in Inr (Ref b, h'')))
           | _ \<Rightarrow> Inl TypeError)
      | _ \<Rightarrow> Inl TypeError)"
| "rewriteConfiguration (ZodObject shape) config result h =
     (case rewrite_entries shape config result h of
        Inl e \<Rightarrow> Inl e
      | Inr h' \<Rightarrow> Inr (Ref result, h'))"
| "rewriteConfiguration ZodOther config result h = Inr (config, h)"
| "rewrite_entries [] confObj resultObj h = Inr h"
| "rewrite_entries ((key, subSchema) # entries) confObj resultObj h =
     (if confObj = Undefined then rewrite_entries entries confObj resultObj h
      else
        (case get_property h confObj key of
           Inl e \<Rightarrow> Inl e
         | Inr v \<Rightarrow>
             if v = Undefined then rewrite_entries entries confObj resultObj h
             else
               (let (fresh, h1) = alloc (Object []) h in
                case rewriteConfiguration subSchema v fresh h1 of
                  Inl e \<Rightarrow> Inl e
                | Inr (r, h2) \<Rightarrow>
                    (case set_property resultObj key r h2 of
                       Inl e \<Rightarrow> Inl e
                     | Inr h3 \<Rightarrow>
                         rewrite_entries entries confObj resultObj
                           (if is_empty_object h3 r
                            then delete_property resultObj key h3 else h3)))))"
| "rewrite_items element [] result h = Inr ([], h)"
| "rewrite_items element (item # items) result h =
     (case rewriteConfiguration element item result h of
        Inl e \<Rightarrow> Inl e
      | Inr (y, h') \<Rightarrow>
          (case rewrite_items element items result h' of
             Inl e \<Rightarrow> Inl e
           | Inr (ys, h'') \<Rightarrow> Inr (y # ys, h'')))"


subsection \<open>Values as trees\<close>

text \<open>
  A value without sharing is a tree. \<open>store\<close> builds a tree in the heap, \<open>reify\<close>
  reads the tree a value stands for, to a given depth. \<open>rewrite_once\<close> stores a
  configuration, rewrites it and reads the result; \<open>rewrite_twice\<close> rewrites the result
  of the first call, in the heap the first call left, and reads the second result.
\<close>

datatype json =
    JUndefined
  | JNull
  | JBoolean bool
  | JNumber int
  | JString string
  | JArray "json list"
  | JObject "(string \<times> json) list"

fun store :: "json \<Rightarrow> heap \<Rightarrow> js_value \<times> heap"
  and store_items :: "json list \<Rightarrow> heap \<Rightarrow> js_value list \<times> heap"
  and store_fields :: "(string \<times> json) list \<Rightarrow> heap \<Rightarrow> (string \<times> js_value) list \<times> heap"
where
  "store JUndefined h = (Undefined, h)"
| "store JNull h = (Null, h)"
| "store (JBoolean b) h = (Boolean b, h)"
| "store (JNumber n) h = (Number n, h)"
| "store (JString s) h = (String s, h)"
| "store (JArray xs) h =
     (let (vs, h') = store_items xs h; (a, h'') = alloc (Array vs) h' in (Ref a, h''))"
| "store (JObject fs) h =
     (let (ps, h') = store_fields fs h; (a, h'') = alloc (Object ps) h' in (Ref a, h''))"
| "store_items [] h = ([], h)"
| "store_items (x # xs) h =
     (let (v, h') = store x h; (vs, h'') = store_items xs h' in (v # vs, h''))"
| "store_fields [] h = ([], h)"
| "store_fields ((k, x) # fs) h =
     (let (v, h') = store x h; (ps, h'') = store_fields fs h' in ((k, v) # ps, h''))"






section \<open>Properties of the constraint validator\<close>

lemma topics_loop_first:
  "topics_loop d ts seen c =
     (case topic_violations d ts seen of
        [] \<Rightarrow> Inr (seen \<union> topic_key d ` set ts)
      | v # _ \<Rightarrow> Inl (c @ [v]))"
  by (induction ts arbitrary: seen) (auto simp: duplicate_violation_def addIssue_def Let_def split: list.splits)

lemma subscriptions_loop_first:
  "subscriptions_loop d i ss seen c =
     (case record_violations d i ss seen of
        [] \<Rightarrow> Inr (seen \<union> subscription_key d ` set ss)
      | v # _ \<Rightarrow> Inl (c @ [v]))"
proof (induction ss arbitrary: i seen)
  case Nil
  show ?case by simp
next
  case (Cons s ss)
  show ?case
    by (simp add: Cons.IH record_check_violations_def duplicate_violation_def addIssue_def Let_def
        split: list.splits)
qed

lemma superRefine_first_violation:
  "superRefine d c = c @ take 1 (constraint_violations d)"
  unfolding superRefine_def top_level_def constraint_violations_def violations_before_def
    top_level_violations_def top_level_topics_def top_level_keys_def
  by (simp add: topics_loop_first subscriptions_loop_first addIssue_def split: list.splits)

lemmas webhook_defs =
  superRefine_def top_level_def topLevelDestinations_def topLevelDestination_def
  subscriptionDestinations_def destination_def topic_key_def subscription_key_def
  topics_of_def subscriptions_of_def andand_def addIssue_def delimiter_def
  empty_subscription_def empty_webhooks_def example_arn_def

lemmas violation_defs =
  violations_before_def top_level_violations_def top_level_topics_def top_level_keys_def
  record_check_violations_def duplicate_violation_def constraint_violations_def Let_def

subsection \<open>Keys and triples\<close>

lemma filter_truthy_norm: "filter truthy (map norm xs) = filter truthy xs"
  by (induction xs) (auto simp: norm_def)

lemma join_truthy_empty:
  "join delimiter (map str_of (filter truthy xs)) = [] \<longleftrightarrow> filter truthy xs = []"
proof (cases "filter truthy xs")
  case Nil
  then show ?thesis by simp
next
  case (Cons x ys)
  then have "truthy x" by (metis filter_eq_ConsD)
  then have "str_of x \<noteq> []" by (cases x) auto
  then have "join delimiter (map str_of (x # ys)) \<noteq> []" by (cases ys) auto
  with Cons show ?thesis by simp
qed

lemma destination_triple:
  "destination d s =
     join delimiter (map str_of (filter truthy (effective_destination d s))) @ str_of (norm (s_path s))"
proof -
  have "list_ex truthy (own_destination s) \<longleftrightarrow> filter truthy (own_destination s) \<noteq> []"
    by (simp add: list_ex_iff filter_empty_conv)
  then show ?thesis
    unfolding destination_def effective_destination_def Let_def
    using join_truthy_empty[of "own_destination s"]
          filter_truthy_norm[of "[s_subscription_endpoint_url s, s_pubsub_project s, s_pubsub_topic s, s_arn s]"]
          filter_truthy_norm[of "[subscription_endpoint_url d, pubsub_project d, pubsub_topic d, arn d]"]
    by (auto simp: own_destination_def top_destination_def topLevelDestination_def norm_def)
qed

lemma record_triple_key:
  "record_triple d s = record_triple d s' \<Longrightarrow> subscription_key d s = subscription_key d s'"
  by (simp add: record_triple_def subscription_key_def destination_triple)

lemma topic_triple_key:
  "topic_triple d t = record_triple d s \<Longrightarrow> topic_key d t = subscription_key d s"
  using filter_truthy_norm[of "[subscription_endpoint_url d, pubsub_project d, pubsub_topic d, arn d]"]
  by (auto simp: topic_triple_def record_triple_def subscription_key_def topic_key_def
      destination_triple topLevelDestination_def top_destination_def)

subsection \<open>What the accumulated list contains\<close>

lemma record_check_violations_index:
  "record_check_violations d i s = [] \<longleftrightarrow> record_check_violations d j s = []"
  by (simp add: record_check_violations_def Let_def)

lemma topic_violations_message:
  "v \<in> set (topic_violations d ts seen) \<Longrightarrow> message v = DuplicateSubscription"
  by (induction ts arbitrary: seen) (auto simp: duplicate_violation_def split: if_splits)

lemma topic_violations_nonempty:
  "topic_violations d ts seen \<noteq> [] \<longleftrightarrow>
     \<not> distinct (map (topic_key d) ts) \<or> (\<exists>t \<in> set ts. topic_key d t \<in> seen)"
proof (induction ts arbitrary: seen)
  case Nil
  show ?case by simp
next
  case (Cons t ts)
  let ?k = "topic_key d t"
  have "topic_violations d (t # ts) seen \<noteq> [] \<longleftrightarrow>
          ?k \<in> seen \<or> topic_violations d ts (insert ?k seen) \<noteq> []"
    by (simp add: duplicate_violation_def)
  also have "\<dots> \<longleftrightarrow> ?k \<in> seen \<or> \<not> distinct (map (topic_key d) ts) \<or>
          (\<exists>x \<in> set ts. topic_key d x \<in> insert ?k seen)"
    by (simp only: Cons.IH)
  also have "\<dots> \<longleftrightarrow> \<not> distinct (map (topic_key d) (t # ts)) \<or>
          (\<exists>x \<in> set (t # ts). topic_key d x \<in> seen)"
    by auto (metis imageI)
  finally show ?case .
qed

lemma record_violations_message:
  "\<forall>s \<in> set ss. record_check_violations d 0 s = [] \<Longrightarrow>
   v \<in> set (record_violations d k ss seen) \<Longrightarrow> message v = DuplicateSubscription"
proof (induction ss arbitrary: k seen)
  case Nil
  then show ?case by simp
next
  case (Cons s ss)
  have "record_check_violations d k s = []"
    using Cons.prems(1) record_check_violations_index[of d k s 0] by simp
  with Cons show ?case
    by (auto simp: duplicate_violation_def split: if_splits)
qed

lemma record_violations_duplicate:
  "\<not> distinct (map (subscription_key d) ss) \<or> (\<exists>s \<in> set ss. subscription_key d s \<in> seen) \<Longrightarrow>
   record_violations d k ss seen \<noteq> []"
proof (induction ss arbitrary: k seen)
  case Nil
  then show ?case by simp
next
  case (Cons s ss)
  show ?case
  proof (cases "subscription_key d s \<in> seen")
    case True
    then show ?thesis by (simp add: duplicate_violation_def)
  next
    case False
    with Cons.prems have
      "\<not> distinct (map (subscription_key d) ss) \<or>
       (\<exists>x \<in> set ss. subscription_key d x \<in> insert (subscription_key d s) seen)"
      by (auto simp: image_iff)
    from Cons.IH[OF this] show ?thesis by simp
  qed
qed

lemma topLevelDestination_nonempty:
  "topLevelDestinations d \<noteq> [] \<Longrightarrow> topLevelDestination d \<noteq> []"
  unfolding topLevelDestination_def join_truthy_empty
  by (auto simp: topLevelDestinations_def andand_def filter_empty_conv split: if_splits)

lemma top_level_topics_pass:
  "top_level_violations d = [] \<Longrightarrow> top_level_topics d = topics_of d"
  using topLevelDestination_nonempty[of d]
  by (auto simp: top_level_violations_def top_level_topics_def split: if_splits)

lemma append_nonempty_right: "ys \<noteq> [] \<Longrightarrow> xs @ ys \<noteq> []"
  by simp

lemma issue_eq: "(v::issue) = \<lparr>message = message v, path = path v\<rparr>"
  by simp

lemma duplicate_key_violation:
  assumes pass: "destination_checks_pass d" and dup: "has_duplicate_key d"
  shows "\<exists>p. superRefine d [] = [\<lparr>message = DuplicateSubscription, path = p\<rparr>]"
proof -
  let ?ss = "subscriptions_of d"
  let ?tv = "topic_violations d (topics_of d) {}"
  let ?rv = "record_violations d 0 ?ss (top_level_keys d)"
  from pass have top: "top_level_violations d = []"
    by (simp add: destination_checks_pass_def)
  have recs: "\<forall>s \<in> set ?ss. record_check_violations d 0 s = []"
  proof
    fix s assume "s \<in> set ?ss"
    then obtain i where "i < length ?ss" "?ss ! i = s" by (auto simp: in_set_conv_nth)
    with pass have "record_check_violations d i s = []"
      by (auto simp: destination_checks_pass_def)
    then show "record_check_violations d 0 s = []"
      using record_check_violations_index[of d i s 0] by simp
  qed
  have tt: "top_level_topics d = topics_of d" by (rule top_level_topics_pass[OF top])
  have cv: "constraint_violations d = ?tv @ ?rv"
    by (simp add: constraint_violations_def violations_before_def top tt)
  have msgs: "\<forall>v \<in> set (constraint_violations d). message v = DuplicateSubscription"
  proof
    fix v assume "v \<in> set (constraint_violations d)"
    then have "v \<in> set ?tv \<or> v \<in> set ?rv" by (simp add: cv)
    then show "message v = DuplicateSubscription"
    proof
      assume "v \<in> set ?tv" then show ?thesis by (rule topic_violations_message)
    next
      assume "v \<in> set ?rv" then show ?thesis by (rule record_violations_message[OF recs])
    qed
  qed
  have "?tv @ ?rv \<noteq> []"
  proof -
    from dup consider
        (rr) i j where "j < length ?ss" "i < j" "record_triple d (?ss ! i) = record_triple d (?ss ! j)"
      | (tr) t s where "t \<in> set (topics_of d)" "s \<in> set ?ss" "topic_triple d t = record_triple d s"
      | (tt) "\<not> distinct (topics_of d)"
      unfolding has_duplicate_key_def by blast
    then show ?thesis
    proof cases
      case rr
      let ?ks = "map (subscription_key d) ?ss"
      from rr have ij: "i < length ?ks" "j < length ?ks" "i \<noteq> j" by simp_all
      from rr have "?ks ! i = ?ks ! j"
        using record_triple_key[of d "?ss ! i" "?ss ! j"] by simp
      with ij have "\<not> distinct ?ks"
        using nth_eq_iff_index_eq[of ?ks i j] by blast
      then show ?thesis by (rule record_violations_duplicate[OF disjI1, THEN append_nonempty_right])
    next
      case tr
      then have "subscription_key d s \<in> top_level_keys d"
        using topic_triple_key[of d t s] by (simp add: top_level_keys_def tt image_iff) metis
      with tr have "\<exists>s \<in> set ?ss. subscription_key d s \<in> top_level_keys d" by blast
      then show ?thesis by (rule record_violations_duplicate[OF disjI2, THEN append_nonempty_right])
    next
      case tt
      then have "\<not> distinct (map (topic_key d) (topics_of d))"
        by (simp add: distinct_map)
      then show ?thesis by (simp add: topic_violations_nonempty)
    qed
  qed
  then obtain v vs where vs: "constraint_violations d = v # vs"
    by (cases "constraint_violations d") (auto simp: cv)
  with msgs have "message v = DuplicateSubscription" by simp
  then have "v = \<lparr>message = DuplicateSubscription, path = path v\<rparr>"
    using issue_eq[of v] by simp
  then have "superRefine d [] = [\<lparr>message = DuplicateSubscription, path = path v\<rparr>]"
    by (simp add: superRefine_first_violation vs)
  then show ?thesis by blast
qed

lemma repeated_topic_violation:
  assumes "top_level_violations d = []" "topics d = Some [t, t]" "subscriptions_of d = []"
  shows "superRefine d [] = [\<lparr>message = DuplicateSubscription, path = [PKey ''topics'', PKey t]\<rparr>]"
  using assms top_level_topics_pass[of d]
  by (simp add: superRefine_first_violation constraint_violations_def violations_before_def
      topics_of_def duplicate_violation_def)

lemma single_topic_valid:
  assumes "top_level_violations d = []" "topics d = Some [t]" "subscriptions_of d = []"
  shows "superRefine d [] = []"
  using assms top_level_topics_pass[of d]
  by (simp add: superRefine_first_violation constraint_violations_def violations_before_def
      topics_of_def duplicate_violation_def)

lemma record_violations_append:
  "record_violations d k (xs @ ys) seen =
     record_violations d k xs seen
     @ record_violations d (k + length xs) ys (seen \<union> subscription_key d ` set xs)"
  by (induction xs arbitrary: k seen) simp_all

lemma constraint_violations_split:
  assumes "i < length (subscriptions_of d)"
  shows "\<exists>rest. constraint_violations d =
           violations_before d i @ record_check_violations d i (subscriptions_of d ! i) @ rest"
proof -
  let ?ss = "subscriptions_of d"
  have "?ss = take i ?ss @ ?ss ! i # drop (Suc i) ?ss"
    using assms by (simp add: id_take_nth_drop[symmetric])
  then have "record_violations d 0 ?ss (top_level_keys d) =
      record_violations d 0 (take i ?ss) (top_level_keys d)
      @ record_violations d (0 + length (take i ?ss)) (?ss ! i # drop (Suc i) ?ss)
          (top_level_keys d \<union> subscription_key d ` set (take i ?ss))"
    using record_violations_append[of d 0 "take i ?ss" "?ss ! i # drop (Suc i) ?ss"] by simp
  moreover have "length (take i ?ss) = i" using assms by simp
  ultimately show ?thesis
    by (simp add: constraint_violations_def violations_before_def)
qed

lemma record_failure:
  assumes "i < length (subscriptions_of d)"
    and "record_check_violations d i (subscriptions_of d ! i) = v # vs"
  shows "superRefine d [] \<noteq> []"
    and "violations_before d i = [] \<Longrightarrow> superRefine d [] = [v]"
proof -
  from constraint_violations_split[OF assms(1)] obtain rest where
    cv: "constraint_violations d = violations_before d i @ (v # vs) @ rest"
    using assms(2) by auto
  then have "constraint_violations d \<noteq> []" by simp
  then show "superRefine d [] \<noteq> []"
    by (cases "constraint_violations d") (simp_all add: superRefine_first_violation)
  show "superRefine d [] = [v]" if "violations_before d i = []"
    using that cv by (simp add: superRefine_first_violation)
qed

lemma top_level_failure:
  "top_level_violations d \<noteq> [] \<Longrightarrow> superRefine d [] \<noteq> []"
  by (cases "top_level_violations d")
     (simp_all add: superRefine_first_violation constraint_violations_def violations_before_def)

lemma violations_before_top:
  "violations_before d i = [] \<Longrightarrow> top_level_violations d = []"
  by (simp add: violations_before_def)

subsection \<open>The claims about the constraint validator\<close>

text \<open>
  Claim C1. When a document passes the destination checks and two subscription records,
  a top-level topic and a record, or two top-level topics resolve to the same
  subscription key (topic, effective destination, path), validation fails with the
  duplicate-subscription issue. In particular a document that passes the top-level
  checks, has no subscription records and lists one topic twice fails with that issue
  at the path \<open>topics, t\<close>, and the same document with the topic listed once
  validates.
\<close>

theorem duplicate_subscription_rejected:
  "(destination_checks_pass d \<and> has_duplicate_key d \<longrightarrow>
      (\<exists>p. superRefine d [] = [\<lparr>message = DuplicateSubscription, path = p\<rparr>])) \<and>
   (top_level_violations d = [] \<and> topics d = Some [t, t] \<and> subscriptions_of d = [] \<longrightarrow>
      superRefine d [] =
        [\<lparr>message = DuplicateSubscription, path = [PKey ''topics'', PKey t]\<rparr>]) \<and>
   (top_level_violations d = [] \<and> topics d = Some [t] \<and> subscriptions_of d = [] \<longrightarrow>
      superRefine d [] = [])"
  using duplicate_key_violation[of d] repeated_topic_violation[of d t] single_topic_valid[of d t]
  by blast

theorem duplicate_subscription_rejected_witness:
  "destination_checks_pass doc_same_key \<and> has_duplicate_key doc_same_key \<and>
   (\<exists>p. superRefine doc_same_key [] = [\<lparr>message = DuplicateSubscription, path = p\<rparr>]) \<and>
   top_level_violations doc_repeated = [] \<and>
   superRefine doc_repeated [] =
     [\<lparr>message = DuplicateSubscription, path = [PKey ''topics'', PKey ''orders/create'']\<rparr>] \<and>
   top_level_violations doc_single = [] \<and>
   superRefine doc_single [] = []"
proof -
  have len: "length (subscriptions_of doc_same_key) = 3"
    by (simp add: doc_same_key_def webhook_defs)
  have h1: "destination_checks_pass doc_same_key"
    unfolding destination_checks_pass_def len
    by (simp add: doc_same_key_def violation_defs webhook_defs less_Suc_eq numeral_3_eq_3)
  have "record_triple doc_same_key (subscriptions_of doc_same_key ! 0) =
        record_triple doc_same_key (subscriptions_of doc_same_key ! 2)"
    by (simp add: doc_same_key_def record_triple_def effective_destination_def
        own_destination_def top_destination_def norm_def webhook_defs)
  then have h2: "has_duplicate_key doc_same_key"
    unfolding has_duplicate_key_def len
    by (intro disjI1 exI[of _ "2::nat"] exI[of _ "0::nat"] conjI) simp_all
  have h3: "top_level_violations doc_repeated = []"
    "topics doc_repeated = Some [''orders/create'', ''orders/create'']"
    "subscriptions_of doc_repeated = []"
    by (simp_all add: doc_repeated_def violation_defs webhook_defs)
  have h4: "top_level_violations doc_single = []"
    "topics doc_single = Some [''orders/create'']"
    "subscriptions_of doc_single = []"
    by (simp_all add: doc_single_def violation_defs webhook_defs)
  from duplicate_subscription_rejected[of doc_same_key] h1 h2
  have "\<exists>p. superRefine doc_same_key [] = [\<lparr>message = DuplicateSubscription, path = p\<rparr>]"
    by blast
  moreover from duplicate_subscription_rejected[of doc_repeated "''orders/create''"] h3
  have "superRefine doc_repeated [] =
     [\<lparr>message = DuplicateSubscription, path = [PKey ''topics'', PKey ''orders/create'']\<rparr>]"
    by blast
  moreover from duplicate_subscription_rejected[of doc_single "''orders/create''"] h4
  have "superRefine doc_single [] = []"
    by blast
  ultimately show ?thesis using h1 h2 h3(1) h4(1) by blast
qed

text \<open>
  Claim C2, as stated, fails: a record with an arn and a path in a document without any
  endpoint URL is rejected by the path-without-endpoint check, which the callback
  makes before the check for a path with arn or pubsub.
\<close>

theorem path_with_arn_counterexample:
  "arn_or_pubsub_in_effect doc_arn_path (subscriptions_of doc_arn_path ! 0) \<and>
   truthy (s_path (subscriptions_of doc_arn_path ! 0)) \<and>
   superRefine doc_arn_path [] =
     [\<lparr>message = PathMissingEndpoint, path = [PKey ''subscriptions'', PIndex 0]\<rparr>]"
  by (simp add: doc_arn_path_def arn_or_pubsub_in_effect_def has_arn_or_pubsub_def webhook_defs)

text \<open>
  Claim C2, amended. A document with a record that has a path while an arn or pubsub
  destination is in effect for it (declared by the record, or the top-level one) never
  validates. When nothing before that record is violated and the record passes the
  pair, exclusivity and missing-destination checks, the one issue is at that record:
  the path-with-arn-or-pubsub issue when the document has a top-level
  \<open>subscription_endpoint_url\<close>, the path-without-endpoint issue when it has none.
\<close>

theorem path_with_arn_or_pubsub_fails:
  assumes "i < length (subscriptions_of d)"
    and "truthy (s_path (subscriptions_of d ! i))"
    and "arn_or_pubsub_in_effect d (subscriptions_of d ! i)"
  shows "superRefine d [] \<noteq> [] \<and>
         (violations_before d i = [] \<and> pre_path_checks_pass d (subscriptions_of d ! i) \<longrightarrow>
          superRefine d [] =
            [\<lparr>message = (if truthy (subscription_endpoint_url d)
                          then PathWithIncompatibleDestination else PathMissingEndpoint),
              path = [PKey ''subscriptions'', PIndex i]\<rparr>])"
proof -
  let ?s = "subscriptions_of d ! i"
  let ?p = "[PKey ''subscriptions'', PIndex i]"
  have fails: "superRefine d [] \<noteq> []"
  proof (cases "top_level_violations d = []")
    case False
    then show ?thesis by (rule top_level_failure)
  next
    case True
    have "record_check_violations d i ?s \<noteq> []"
      using assms(2,3) True
      by (auto simp: record_check_violations_def arn_or_pubsub_in_effect_def has_arn_or_pubsub_def
          top_has_arn_or_pubsub_def own_destination_def norm_def top_level_violations_def
          topLevelDestinations_def andand_def Let_def split: if_splits)
    then obtain v vs where "record_check_violations d i ?s = v # vs"
      by (cases "record_check_violations d i ?s") auto
    from record_failure(1)[OF assms(1) this] show ?thesis .
  qed
  have first: "superRefine d [] =
      [\<lparr>message = (if truthy (subscription_endpoint_url d)
                    then PathWithIncompatibleDestination else PathMissingEndpoint), path = ?p\<rparr>]"
    if vb: "violations_before d i = []" and pre: "pre_path_checks_pass d ?s"
  proof -
    from vb have top: "top_level_violations d = []" by (rule violations_before_top)
    have "\<exists>vs. record_check_violations d i ?s =
        \<lparr>message = (if truthy (subscription_endpoint_url d)
                    then PathWithIncompatibleDestination else PathMissingEndpoint), path = ?p\<rparr> # vs"
      using assms(2,3) top pre
      by (auto simp: record_check_violations_def arn_or_pubsub_in_effect_def has_arn_or_pubsub_def
          top_has_arn_or_pubsub_def own_destination_def norm_def top_level_violations_def
          topLevelDestinations_def subscriptionDestinations_def pre_path_checks_pass_def
          andand_def Let_def split: if_splits)
    then obtain vs where "record_check_violations d i ?s =
        \<lparr>message = (if truthy (subscription_endpoint_url d)
                    then PathWithIncompatibleDestination else PathMissingEndpoint), path = ?p\<rparr> # vs"
      by blast
    from record_failure(2)[OF assms(1) this vb] show ?thesis .
  qed
  from fails first show ?thesis by blast
qed

theorem path_with_arn_or_pubsub_fails_witness:
  "0 < length (subscriptions_of doc_url_arn_path) \<and>
   truthy (s_path (subscriptions_of doc_url_arn_path ! 0)) \<and>
   arn_or_pubsub_in_effect doc_url_arn_path (subscriptions_of doc_url_arn_path ! 0) \<and>
   violations_before doc_url_arn_path 0 = [] \<and>
   pre_path_checks_pass doc_url_arn_path (subscriptions_of doc_url_arn_path ! 0) \<and>
   superRefine doc_url_arn_path [] =
     [\<lparr>message = PathWithIncompatibleDestination, path = [PKey ''subscriptions'', PIndex 0]\<rparr>]"
proof -
  have h1: "0 < length (subscriptions_of doc_url_arn_path)"
    by (simp add: doc_url_arn_path_def doc_arn_path_def webhook_defs)
  have h2: "truthy (s_path (subscriptions_of doc_url_arn_path ! 0))"
    by (simp add: doc_url_arn_path_def doc_arn_path_def webhook_defs)
  have h3: "arn_or_pubsub_in_effect doc_url_arn_path (subscriptions_of doc_url_arn_path ! 0)"
    by (simp add: doc_url_arn_path_def doc_arn_path_def arn_or_pubsub_in_effect_def
        has_arn_or_pubsub_def webhook_defs)
  have h4: "violations_before doc_url_arn_path 0 = []"
    by (simp add: doc_url_arn_path_def doc_arn_path_def violation_defs webhook_defs)
  have h5: "pre_path_checks_pass doc_url_arn_path (subscriptions_of doc_url_arn_path ! 0)"
    by (simp add: doc_url_arn_path_def doc_arn_path_def pre_path_checks_pass_def webhook_defs)
  have h6: "truthy (subscription_endpoint_url doc_url_arn_path)"
    by (simp add: doc_url_arn_path_def)
  from path_with_arn_or_pubsub_fails[OF h1 h2 h3] h4 h5 h6 h1 h2 h3 show ?thesis by simp
qed

text \<open>
  Claim C3, as stated, fails: for a record with \<open>pubsub_project\<close> and \<open>arn\<close> but
  no \<open>pubsub_topic\<close> the pair-completeness check comes first.
\<close>

theorem project_and_arn_counterexample:
  "truthy (s_pubsub_project (subscriptions_of doc_project_arn ! 0)) \<and>
   truthy (s_arn (subscriptions_of doc_project_arn ! 0)) \<and>
   superRefine doc_project_arn [] =
     [\<lparr>message = IncompletePubSubPair ''a pub sub destination'',
       path = [PKey ''subscriptions'', PIndex 0]\<rparr>]"
  by (simp add: doc_project_arn_def webhook_defs)

text \<open>
  Claim C3, amended. A document with a record declaring both \<open>pubsub_project\<close> and
  \<open>arn\<close> never validates. When nothing before that record is violated, the one issue
  is at that record: the exclusivity issue when \<open>pubsub_topic\<close> is set as well, the
  incomplete-pair issue when it is not.
\<close>

theorem project_and_arn_fails:
  assumes "i < length (subscriptions_of d)"
    and "truthy (s_pubsub_project (subscriptions_of d ! i))"
    and "truthy (s_arn (subscriptions_of d ! i))"
  shows "superRefine d [] \<noteq> [] \<and>
         (violations_before d i = [] \<longrightarrow>
          superRefine d [] =
            [\<lparr>message = (if truthy (s_pubsub_topic (subscriptions_of d ! i))
                          then MultipleDestinations ''per subscription''
                          else IncompletePubSubPair ''a pub sub destination''),
              path = [PKey ''subscriptions'', PIndex i]\<rparr>])"
proof -
  let ?s = "subscriptions_of d ! i"
  have "\<exists>vs. record_check_violations d i ?s =
      \<lparr>message = (if truthy (s_pubsub_topic ?s)
                    then MultipleDestinations ''per subscription''
                    else IncompletePubSubPair ''a pub sub destination''),
        path = [PKey ''subscriptions'', PIndex i]\<rparr> # vs"
    using assms(2,3)
    by (auto simp: record_check_violations_def subscriptionDestinations_def andand_def Let_def)
  then obtain vs where "record_check_violations d i ?s =
      \<lparr>message = (if truthy (s_pubsub_topic ?s)
                    then MultipleDestinations ''per subscription''
                    else IncompletePubSubPair ''a pub sub destination''),
        path = [PKey ''subscriptions'', PIndex i]\<rparr> # vs"
    by blast
  from record_failure[OF assms(1) this] show ?thesis by blast
qed

theorem project_and_arn_fails_witness:
  "0 < length (subscriptions_of doc_pubsub_arn) \<and>
   truthy (s_pubsub_project (subscriptions_of doc_pubsub_arn ! 0)) \<and>
   truthy (s_arn (subscriptions_of doc_pubsub_arn ! 0)) \<and>
   violations_before doc_pubsub_arn 0 = [] \<and>
   superRefine doc_pubsub_arn [] =
     [\<lparr>message = MultipleDestinations ''per subscription'',
       path = [PKey ''subscriptions'', PIndex 0]\<rparr>]"
proof -
  have h1: "0 < length (subscriptions_of doc_pubsub_arn)"
    by (simp add: doc_pubsub_arn_def webhook_defs)
  have h2: "truthy (s_pubsub_project (subscriptions_of doc_pubsub_arn ! 0))"
    by (simp add: doc_pubsub_arn_def webhook_defs)
  have h3: "truthy (s_arn (subscriptions_of doc_pubsub_arn ! 0))"
    by (simp add: doc_pubsub_arn_def webhook_defs)
  have h4: "violations_before doc_pubsub_arn 0 = []"
    by (simp add: doc_pubsub_arn_def violation_defs webhook_defs)
  have h5: "truthy (s_pubsub_topic (subscriptions_of doc_pubsub_arn ! 0))"
    by (simp add: doc_pubsub_arn_def webhook_defs)
  from project_and_arn_fails[OF h1 h2 h3] h1 h2 h3 h4 h5 show ?thesis by simp
qed

text \<open>
  Claim C4, as stated, fails: a record with a path in a document without any
  destination is rejected by the missing-destination check, which comes first.
\<close>

theorem path_without_endpoint_counterexample:
  "truthy (s_path (subscriptions_of doc_path_only ! 0)) \<and>
   \<not> truthy (subscription_endpoint_url doc_path_only) \<and>
   \<not> truthy (s_subscription_endpoint_url (subscriptions_of doc_path_only ! 0)) \<and>
   superRefine doc_path_only [] =
     [\<lparr>message = MissingDestination, path = [PKey ''subscriptions'', PIndex 0]\<rparr>]"
  by (simp add: doc_path_only_def webhook_defs)

text \<open>
  Claim C4, amended. A document with a record that has a path while neither the
  document nor the record has a \<open>subscription_endpoint_url\<close> never validates. When
  nothing before that record is violated and the record passes the pair, exclusivity
  and missing-destination checks, the one issue is the path-without-endpoint issue
  at that record.
\<close>

theorem path_without_endpoint_fails:
  assumes "i < length (subscriptions_of d)"
    and "truthy (s_path (subscriptions_of d ! i))"
    and "\<not> truthy (subscription_endpoint_url d)"
    and "\<not> truthy (s_subscription_endpoint_url (subscriptions_of d ! i))"
  shows "superRefine d [] \<noteq> [] \<and>
         (violations_before d i = [] \<and> pre_path_checks_pass d (subscriptions_of d ! i) \<longrightarrow>
          superRefine d [] =
            [\<lparr>message = PathMissingEndpoint, path = [PKey ''subscriptions'', PIndex i]\<rparr>])"
proof -
  let ?s = "subscriptions_of d ! i"
  let ?v = "\<lparr>message = PathMissingEndpoint, path = [PKey ''subscriptions'', PIndex i]\<rparr>"
  have "record_check_violations d i ?s \<noteq> []"
    using assms(2-4) by (simp add: record_check_violations_def Let_def)
  then obtain w ws where "record_check_violations d i ?s = w # ws"
    by (cases "record_check_violations d i ?s") auto
  from record_failure(1)[OF assms(1) this] have fails: "superRefine d [] \<noteq> []" .
  have first: "superRefine d [] = [?v]"
    if vb: "violations_before d i = []" and pre: "pre_path_checks_pass d ?s"
  proof -
    have "\<exists>vs. record_check_violations d i ?s = ?v # vs"
      using assms(2-4) pre
      by (auto simp: record_check_violations_def pre_path_checks_pass_def Let_def)
    then obtain vs where "record_check_violations d i ?s = ?v # vs" by blast
    from record_failure(2)[OF assms(1) this vb] show ?thesis .
  qed
  from fails first show ?thesis by blast
qed

theorem path_without_endpoint_fails_witness:
  "0 < length (subscriptions_of doc_top_arn_path) \<and>
   truthy (s_path (subscriptions_of doc_top_arn_path ! 0)) \<and>
   \<not> truthy (subscription_endpoint_url doc_top_arn_path) \<and>
   \<not> truthy (s_subscription_endpoint_url (subscriptions_of doc_top_arn_path ! 0)) \<and>
   violations_before doc_top_arn_path 0 = [] \<and>
   pre_path_checks_pass doc_top_arn_path (subscriptions_of doc_top_arn_path ! 0) \<and>
   superRefine doc_top_arn_path [] =
     [\<lparr>message = PathMissingEndpoint, path = [PKey ''subscriptions'', PIndex 0]\<rparr>]"
proof -
  have h1: "0 < length (subscriptions_of doc_top_arn_path)"
    by (simp add: doc_top_arn_path_def doc_path_only_def webhook_defs)
  have h2: "truthy (s_path (subscriptions_of doc_top_arn_path ! 0))"
    by (simp add: doc_top_arn_path_def doc_path_only_def webhook_defs)
  have h3: "\<not> truthy (subscription_endpoint_url doc_top_arn_path)"
    by (simp add: doc_top_arn_path_def doc_path_only_def webhook_defs)
  have h4: "\<not> truthy (s_subscription_endpoint_url (subscriptions_of doc_top_arn_path ! 0))"
    by (simp add: doc_top_arn_path_def doc_path_only_def webhook_defs)
  have h5: "violations_before doc_top_arn_path 0 = []"
    by (simp add: doc_top_arn_path_def doc_path_only_def violation_defs webhook_defs)
  have h6: "pre_path_checks_pass doc_top_arn_path (subscriptions_of doc_top_arn_path ! 0)"
    by (simp add: doc_top_arn_path_def doc_path_only_def pre_path_checks_pass_def webhook_defs)
  from path_without_endpoint_fails[OF h1 h2 h3 h4] h1 h2 h3 h4 h5 h6 show ?thesis by simp
qed



section \<open>Properties of the app model and of the \<open>ui_extension\<close> specification\<close>

lemma find_defined_iff:
  "(\<exists>y. find P xs = Some y) \<longleftrightarrow> (\<exists>x \<in> set xs. P x)"
  "find P xs = None \<longleftrightarrow> (\<forall>x \<in> set xs. \<not> P x)"
  by (induction xs) auto

lemma filter_in_subseqs: "filter P xs \<in> set (subseqs xs)"
  by (induction xs) (auto simp: Let_def)

lemma count_list_filter_match: "P e \<Longrightarrow> count_list (filter P xs) e = count_list xs e"
  by (induction xs) auto

text \<open>
  Claim C8. \<open>extensionsForType\<close> returns exactly the extension instances of the app
  whose type is the specification's identifier or its external identifier: an
  instance is in the result if and only if it is one of the app's extensions and
  matches on either name; the result is a subsequence of the app's list (it keeps
  the order), and every matching
  instance occurs as often as in the app.
\<close>

theorem extensionsForType_matches:
  "(\<forall>e. e \<in> set (extensionsForType this spec) \<longleftrightarrow>
        e \<in> set (allExtensions this) \<and>
        (type e = identifier spec \<or> type e = externalIdentifier spec)) \<and>
   extensionsForType this spec \<in> set (subseqs (allExtensions this)) \<and>
   (\<forall>e. type e = identifier spec \<or> type e = externalIdentifier spec \<longrightarrow>
        count_list (extensionsForType this spec) e = count_list (allExtensions this) e)"
  by (simp add: extensionsForType_def count_list_filter_match filter_in_subseqs)

theorem extensionsForType_matches_witness:
  "example_extension ''ui_extension_external'' ''checkout-banner'' ''dev-1''
     \<in> set (extensionsForType example_app ui_extension_names) \<and>
   example_extension ''ui_extension'' ''admin-block'' ''dev-3''
     \<in> set (extensionsForType example_app ui_extension_names) \<and>
   example_extension ''function'' ''discount'' ''dev-2''
     \<notin> set (extensionsForType example_app ui_extension_names)"
  using extensionsForType_matches[of example_app ui_extension_names]
  by (simp add: example_app_def ui_extension_names_def example_extension_def)



text \<open>
  Claim C10. For the \<open>ui_extension\<close> specification, \<open>shouldFetchCartUrl\<close> returns
  true exactly when \<open>appModuleFeatures\<close> contains \<open>cart_url\<close>; both are the predicate
  that some declared extension point's target is on the checkout surface, and
  \<open>appModuleFeatures\<close> always contains \<open>ui_preview\<close>, \<open>bundling\<close> and \<open>esbuild\<close>.
\<close>

theorem cart_url_feature_iff_fetch:
  "(shouldFetchCartUrl surface config = Inr True \<longleftrightarrow>
      ''cart_url'' \<in> set (appModuleFeatures surface config)) \<and>
   (''cart_url'' \<in> set (appModuleFeatures surface config) \<longleftrightarrow>
      declares_checkout_target surface config) \<and>
   (\<forall>eps. extension_points config = Some eps \<longrightarrow>
      shouldFetchCartUrl surface config = Inr (declares_checkout_target surface config)) \<and>
   {''ui_preview'', ''bundling'', ''esbuild''} \<subseteq> set (appModuleFeatures surface config)"
  by (cases "extension_points config")
     (simp_all add: shouldFetchCartUrl_def appModuleFeatures_def declares_checkout_target_def
        find_defined_iff targets_checkout_def Let_def)

theorem cart_url_feature_iff_fetch_witness:
  "shouldFetchCartUrl example_surface checkout_config = Inr True \<and>
   ''cart_url'' \<in> set (appModuleFeatures example_surface checkout_config) \<and>
   ''esbuild'' \<in> set (appModuleFeatures example_surface checkout_config)"
proof -
  have "declares_checkout_target example_surface checkout_config"
    by (simp add: declares_checkout_target_def checkout_config_def example_surface_def)
  with cart_url_feature_iff_fetch[of example_surface checkout_config] show ?thesis
    by (simp add: checkout_config_def)
qed

section \<open>Properties of \<open>rewriteConfiguration\<close>\<close>



end
